theory Spec2Isabelle
  imports Complex_Main "HOL-Library.Product_Lexorder"
begin

section \<open>Strings and numbers of the host language\<close>

text \<open>
  Titles, slugs, search terms and request parameters are JavaScript strings. They are
  modelled as \<^typ>\<open>string\<close>, one \<^typ>\<open>char\<close> per code unit, which covers the code units
  below 256 (Latin-1). The character classes below are the JavaScript ones restricted to
  that range.
\<close>

definition toLowerCase_char :: "char \<Rightarrow> char" where
  \<comment> \<open>\<open>String.prototype.toLowerCase\<close> on one code unit: A-Z and the Latin-1 capitals
      U+00C0..U+00DE (without the multiplication sign U+00D7) move up by 32.\<close>
  "toLowerCase_char c =
     (let n = (of_char c :: nat)
      in if (65 \<le> n \<and> n \<le> 90) \<or> (192 \<le> n \<and> n \<le> 222 \<and> n \<noteq> 215)
         then char_of (n + 32) else c)"

definition toLowerCase :: "string \<Rightarrow> string" where
  "toLowerCase s = map toLowerCase_char s"

definition slug_char :: "char \<Rightarrow> bool" where
  \<comment> \<open>the class \<open>[a-z0-9 -]\<close>\<close>
  "slug_char c =
     (let n = (of_char c :: nat)
      in (97 \<le> n \<and> n \<le> 122) \<or> (48 \<le> n \<and> n \<le> 57) \<or> n = 32 \<or> n = 45)"

definition js_whitespace :: "char \<Rightarrow> bool" where
  \<comment> \<open>the class \<open>\s\<close>, also what \<open>trim()\<close> and \<open>parseInt\<close> skip: TAB, LF, VT, FF, CR,
      space and the no-break space\<close>
  "js_whitespace c =
     (let n = (of_char c :: nat) in (9 \<le> n \<and> n \<le> 13) \<or> n = 32 \<or> n = 160)"

definition is_hyphen :: "char \<Rightarrow> bool" where
  "is_hyphen c = (c = CHR ''-'')"

definition is_digit :: "char \<Rightarrow> bool" where
  \<comment> \<open>the class \<open>\d\<close>\<close>
  "is_digit c = (let n = (of_char c :: nat) in 48 \<le> n \<and> n \<le> 57)"

function replace_runs :: "(char \<Rightarrow> bool) \<Rightarrow> string \<Rightarrow> string \<Rightarrow> string" where
  \<comment> \<open>\<open>s.replace(/X+/g, r)\<close> for a character class X: every maximal run of X becomes r\<close>
  "replace_runs P r [] = []"
| "replace_runs P r (c # cs) =
     (if P c then r @ replace_runs P r (dropWhile P cs) else c # replace_runs P r cs)"
  by pat_completeness auto
termination
  by (relation "measure (\<lambda>(P, r, s). length s)")
     (auto simp: length_dropWhile_le less_Suc_eq_le)

declare replace_runs.simps [simp del]

definition js_trim :: "string \<Rightarrow> string" where
  \<comment> \<open>\<open>String.prototype.trim\<close>: it takes no argument and strips white space only\<close>
  "js_trim s = rev (dropWhile js_whitespace (rev (dropWhile js_whitespace s)))"

definition digit_char :: "nat \<Rightarrow> char" where
  "digit_char d = char_of (48 + d)"

function show_nat :: "nat \<Rightarrow> string" where
  \<comment> \<open>the decimal rendering of a non-negative integer in a template literal\<close>
  "show_nat n =
     (if n < 10 then [digit_char n] else show_nat (n div 10) @ [digit_char (n mod 10)])"
  by pat_completeness auto
termination
  by (relation "measure id") auto

declare show_nat.simps [simp del]

datatype number = NaN | PosInfinity | Num int

definition digit_val :: "char \<Rightarrow> nat option" where
  \<comment> \<open>the value of a digit in radix up to 36\<close>
  "digit_val c =
     (let n = (of_char c :: nat)
      in if 48 \<le> n \<and> n \<le> 57 then Some (n - 48)
         else if 97 \<le> n \<and> n \<le> 122 then Some (n - 87)
         else if 65 \<le> n \<and> n \<le> 90 then Some (n - 55)
         else None)"

definition in_radix :: "nat \<Rightarrow> char \<Rightarrow> bool" where
  "in_radix r c = (case digit_val c of None \<Rightarrow> False | Some v \<Rightarrow> v < r)"

definition radix_val :: "nat \<Rightarrow> string \<Rightarrow> nat" where
  "radix_val r ds = foldl (\<lambda>acc c. acc * r + (case digit_val c of None \<Rightarrow> 0 | Some v \<Rightarrow> v)) 0 ds"

definition parseInt :: "string \<Rightarrow> number" where
  \<comment> \<open>\<open>parseInt(s)\<close> without a radix: leading white space, a sign, a \<open>0x\<close> prefix, then
      the longest run of digits; no digit gives NaN. The result is exact (no rounding to
      a double is modelled).\<close>
  "parseInt s =
     (let s1 = dropWhile js_whitespace s;
          neg = (s1 \<noteq> [] \<and> hd s1 = CHR ''-'');
          s2 = (if s1 \<noteq> [] \<and> (hd s1 = CHR ''-'' \<or> hd s1 = CHR ''+'') then tl s1 else s1);
          hex = (take 2 s2 = ''0x'' \<or> take 2 s2 = ''0X'');
          r = (if hex then 16 else 10);
          s3 = (if hex then drop 2 s2 else s2);
          ds = takeWhile (in_radix r) s3
      in if ds = [] then NaN
         else Num ((if neg then - 1 else 1) * int (radix_val r ds)))"

fun Math_max :: "int \<Rightarrow> number \<Rightarrow> number" where
  "Math_max a (Num b) = Num (max a b)"
| "Math_max a PosInfinity = PosInfinity"
| "Math_max a NaN = NaN"

fun Math_min :: "int \<Rightarrow> number \<Rightarrow> number" where
  "Math_min a (Num b) = Num (min a b)"
| "Math_min a PosInfinity = Num a"
| "Math_min a NaN = NaN"

definition falsy_string :: "string option \<Rightarrow> bool" where
  \<comment> \<open>\<open>!s\<close> for a value that is a string or undefined\<close>
  "falsy_string s = (s = None \<or> s = Some [])"

definition truthy_id :: "int option \<Rightarrow> bool" where
  \<comment> \<open>the test \<open>x ? .. : ..\<close> for a value that is an integer, null or undefined\<close>
  "truthy_id x = (case x of None \<Rightarrow> False | Some i \<Rightarrow> i \<noteq> 0)"

section \<open>Slugs (models/Post.js)\<close>

definition generateSlug :: "string \<Rightarrow> string" where
  "generateSlug title =
     js_trim
       (replace_runs is_hyphen ''-''
         (replace_runs js_whitespace ''-''
           (filter slug_char (toLowerCase title))))"

definition trim_hyphens :: "string \<Rightarrow> string" where
  "trim_hyphens s = rev (dropWhile is_hyphen (rev (dropWhile is_hyphen s)))"

definition slugify_spec :: "string \<Rightarrow> string" where
  \<comment> \<open>the derivation as the specification words it: the last step removes leading and
      trailing hyphens\<close>
  "slugify_spec title =
     trim_hyphens
       (replace_runs is_hyphen ''-''
         (replace_runs js_whitespace ''-''
           (filter slug_char (toLowerCase title))))"

section \<open>The store (utils/db.js) and errors (middleware/errorHandler.js)\<close>

text \<open>
  The tables are the ones \<open>initializeTables\<close> creates, each a list of rows in insertion
  order. Nullable foreign keys are options; timestamps are integers. The \<open>updated_at\<close>
  columns and their triggers are left out: no operation below reads them. A NULL tag array
  is the empty list (the overlap test treats both alike).
\<close>

record user_row =
  u_id :: int
  u_name :: string
  u_email :: string
  u_password_hash :: string
  u_avatar_url :: "string option"
  u_bio :: "string option"
  u_created_at :: int

record post_row =
  p_id :: int
  p_user_id :: "int option"
  p_title :: string
  p_excerpt :: "string option"
  p_body :: string
  p_image_url :: "string option"
  p_slug :: string
  p_tags :: "string list"
  p_published :: bool
  p_views :: int
  p_created_at :: int

record comment_row =
  c_id :: int
  c_post_id :: "int option"
  c_user_id :: "int option"
  c_text :: string
  c_created_at :: int

record like_row =
  l_id :: int
  l_post_id :: "int option"
  l_user_id :: "int option"
  l_created_at :: int

record db =
  users :: "user_row list"
  posts :: "post_row list"
  comments :: "comment_row list"
  likes :: "like_row list"
  posts_id_seq :: int
  likes_id_seq :: int

datatype js_error =
    AppError string nat
  | LibError string string
  | DbError string string


fun errorHandler :: "js_error \<Rightarrow> nat \<times> string" where
  \<comment> \<open>the status code and the message of the response\<close>
  "errorHandler (AppError m s) =
     (if s = 0 then 500 else s, if m = [] then ''Internal Server Error'' else m)"
| "errorHandler (DbError c m) =
     (if c = ''23505'' then (409, ''Resource already exists'')
      else if c = ''23503'' then (400, ''Invalid reference to related resource'')
      else if c = ''22P02'' then (400, ''Invalid input data'')
      else (500, if m = [] then ''Internal Server Error'' else m))"
| "errorHandler (LibError n m) =
     (if n = ''JsonWebTokenError'' then (401, ''Invalid token'')
      else if n = ''TokenExpiredError'' then (401, ''Token expired'')
      else if n = ''ValidationError'' then (400, m)
      else (500, if m = [] then ''Internal Server Error'' else m))"

definition primary_keys :: "db \<Rightarrow> bool" where
  \<comment> \<open>the PRIMARY KEY constraints of the four tables\<close>
  "primary_keys d =
     (distinct (map u_id (users d)) \<and> distinct (map p_id (posts d)) \<and>
      distinct (map c_id (comments d)) \<and> distinct (map l_id (likes d)))"


section \<open>Requests and the guards (middleware/auth.js)\<close>

record auth_user =
  au_id :: int
  au_name :: string
  au_email :: string
  au_avatar_url :: "string option"
  au_bio :: "string option"
  au_created_at :: int

datatype tags_param = TagString string | TagArray "string list"

text \<open>
  A request carries the parts the handlers below read: the Authorization header, the
  route parameters, the query string, the JSON body of a post, and the user a guard has
  attached (\<open>req.user\<close>). An absent header, query parameter or body field is \<open>None\<close>.
\<close>

record request =
  headers_authorization :: "string option"
  user :: "auth_user option"
  params_id :: string
  params_postId :: string
  params_identifier :: string
  query_page :: "string option"
  query_limit :: "string option"
  query_tags :: "tags_param option"
  query_author :: "string option"
  query_search :: "string option"
  body_title :: "string option"
  body_excerpt :: "string option"
  body_body :: "string option"
  body_imageUrl :: "string option"
  body_tags :: "string list option"
  body_published :: "bool option"

definition blank_request :: request where
  "blank_request =
     \<lparr>headers_authorization = None, user = None, params_id = [], params_postId = [],
      params_identifier = [], query_page = None, query_limit = None, query_tags = None,
      query_author = None, query_search = None, body_title = None, body_excerpt = None,
      body_body = None, body_imageUrl = None, body_tags = None, body_published = None\<rparr>"



text \<open>
  The token library is not part of the repository: \<open>jwt.verify(token, secret)\<close> is a
  parameter of the guards, a function that returns the decoded payload or the error the
  library throws. A store parameter bound to an integer column arrives as text and the
  store reads it; that reading is the parameter \<open>coerce\<close> of \<open>checkOwnership\<close>, \<open>None\<close>
  when the store rejects the text (SQLSTATE 22P02).
\<close>

fun split_on :: "char \<Rightarrow> string \<Rightarrow> string list" where
  \<comment> \<open>\<open>s.split(sep)\<close> for a one-character separator\<close>
  "split_on sep [] = [[]]"
| "split_on sep (c # cs) =
     (if c = sep then [] # split_on sep cs
      else (case split_on sep cs of [] \<Rightarrow> [[c]] | w # ws \<Rightarrow> (c # w) # ws))"







definition select_post_owner :: "db \<Rightarrow> int \<Rightarrow> int option list" where
  \<comment> \<open>\<open>SELECT user_id FROM posts WHERE id = $1\<close>\<close>
  "select_post_owner d i = map p_user_id (filter (\<lambda>p. p_id p = i) (posts d))"

definition select_comment_owner :: "db \<Rightarrow> int \<Rightarrow> int option list" where
  \<comment> \<open>\<open>SELECT user_id FROM comments WHERE id = $1\<close>\<close>
  "select_comment_owner d i = map c_user_id (filter (\<lambda>c. c_id c = i) (comments d))"

definition owner_check :: "string \<Rightarrow> int \<Rightarrow> request \<Rightarrow> int option list \<Rightarrow> js_error + request" where
  \<comment> \<open>the part of checkOwnership after the \<open>switch\<close>\<close>
  "owner_check resourceType uid req rows =
     (case rows of
        [] \<Rightarrow> Inl (AppError (resourceType @ '' not found'') 404)
      | owner # _ \<Rightarrow>
          if owner \<noteq> Some uid
          then Inl (AppError (''Access denied. You don't own this '' @ resourceType @ ''.'') 403)
          else Inr req)"

definition checkOwnership ::
  "(string \<Rightarrow> int option) \<Rightarrow> string \<Rightarrow> db \<Rightarrow> request \<Rightarrow> js_error + request" where
  "checkOwnership coerce resourceType d req =
     (case user req of
        None \<Rightarrow> Inl (LibError ''TypeError'' ''Cannot read properties of undefined'')
      | Some u \<Rightarrow>
          if resourceType = ''post'' then
            (case coerce (params_id req) of
               None \<Rightarrow> Inl (DbError ''22P02'' ''invalid input syntax for type integer'')
             | Some i \<Rightarrow> owner_check resourceType (au_id u) req (select_post_owner d i))
          else if resourceType = ''comment'' then
            (case coerce (params_id req) of
               None \<Rightarrow> Inl (DbError ''22P02'' ''invalid input syntax for type integer'')
             | Some i \<Rightarrow> owner_check resourceType (au_id u) req (select_comment_owner d i))
          else Inl (AppError ''Invalid resource type'' 400))"

section \<open>Posts (models/Post.js)\<close>

record post_view =
  pv_post :: post_row
  author_name :: string
  author_avatar :: "string option"
  likes_count :: nat
  comments_count :: nat

record post_detail = post_view +
  author_bio :: "string option"
  user_liked :: bool

record pagination =
  pg_page :: number
  pg_limit :: number
  pg_total :: nat
  pg_pages :: number

record post_page =
  pp_posts :: "post_view list"
  pp_pagination :: pagination

text \<open>
  Every read joins a post with its author (\<open>JOIN users u ON p.user_id = u.id\<close>) and counts
  its likes and comments with \<open>COUNT(DISTINCT id)\<close> over the two LEFT JOINs. Under the
  primary keys, \<open>GROUP BY p.id, u.name, ...\<close> leaves one row for each joined pair of a post
  and its author, which is the list the join below builds. \<open>ORDER BY\<close> is a stable sort of
  the rows in table order; the store promises no more than the sortedness.
\<close>

definition count_likes :: "db \<Rightarrow> int \<Rightarrow> nat" where
  "count_likes d pid =
     length (remdups (map l_id (filter (\<lambda>l. l_post_id l = Some pid) (likes d))))"

definition count_comments :: "db \<Rightarrow> int \<Rightarrow> nat" where
  "count_comments d pid =
     length (remdups (map c_id (filter (\<lambda>c. c_post_id c = Some pid) (comments d))))"

definition authors_of :: "db \<Rightarrow> post_row \<Rightarrow> user_row list" where
  "authors_of d p = filter (\<lambda>u. p_user_id p = Some (u_id u)) (users d)"

definition mk_view :: "db \<Rightarrow> post_row \<Rightarrow> user_row \<Rightarrow> post_view" where
  "mk_view d p u =
     \<lparr>pv_post = p, author_name = u_name u, author_avatar = u_avatar_url u,
      likes_count = count_likes d (p_id p), comments_count = count_comments d (p_id p)\<rparr>"

definition join_views :: "db \<Rightarrow> post_row list \<Rightarrow> post_view list" where
  "join_views d ps = concat (map (\<lambda>p. map (mk_view d p) (authors_of d p)) ps)"

definition newest_first :: "post_view list \<Rightarrow> post_view list" where
  \<comment> \<open>\<open>ORDER BY p.created_at DESC\<close>\<close>
  "newest_first rows = sort_key (\<lambda>r. - p_created_at (pv_post r)) rows"

definition js_offset :: "number \<Rightarrow> number \<Rightarrow> number" where
  \<comment> \<open>\<open>(page - 1) * limit\<close>\<close>
  "js_offset page limit =
     (case (page, limit) of (Num p, Num l) \<Rightarrow> Num ((p - 1) * l) | _ \<Rightarrow> NaN)"

definition limit_offset :: "number \<Rightarrow> number \<Rightarrow> 'a list \<Rightarrow> js_error + 'a list" where
  \<comment> \<open>\<open>LIMIT $n OFFSET $m\<close>: the store rejects a parameter that is not an integer, and a
      negative one\<close>
  "limit_offset limit offset rows =
     (case (limit, offset) of
        (Num l, Num off) \<Rightarrow>
          if l < 0 then Inl (DbError ''2201W'' ''LIMIT must not be negative'')
          else if off < 0 then Inl (DbError ''2201X'' ''OFFSET must not be negative'')
          else Inr (take (nat l) (drop (nat off) rows))
      | _ \<Rightarrow> Inl (DbError ''22P02'' ''invalid input syntax for type bigint''))"

definition ceil_div :: "nat \<Rightarrow> number \<Rightarrow> number" where
  \<comment> \<open>\<open>Math.ceil(total / limit)\<close>\<close>
  "ceil_div tot limit =
     (case limit of
        Num l \<Rightarrow>
          if l = 0 then (if tot = 0 then NaN else PosInfinity)
          else Num \<lceil>real tot / real_of_int l\<rceil>
      | PosInfinity \<Rightarrow> Num 0
      | NaN \<Rightarrow> NaN)"

definition truthy_number :: "number option \<Rightarrow> bool" where
  \<comment> \<open>\<open>if (x)\<close> for a value that is a number or undefined: NaN and 0 are falsy\<close>
  "truthy_number x = (case x of Some (Num i) \<Rightarrow> i \<noteq> 0 | Some PosInfinity \<Rightarrow> True | _ \<Rightarrow> False)"

definition tags_overlap :: "string list \<Rightarrow> string list \<Rightarrow> bool" where
  \<comment> \<open>the array operator \<open>&&\<close>\<close>
  "tags_overlap ts fs = list_ex (\<lambda>t. t \<in> set fs) ts"

definition findAll_where :: "string list option \<Rightarrow> number option \<Rightarrow> post_row \<Rightarrow> bool" where
  \<comment> \<open>the WHERE clause findAll builds, the same text in the page and the count query\<close>
  "findAll_where tags uid p =
     (p_published p \<and>
      (case tags of
         Some ts \<Rightarrow> (if ts \<noteq> [] then tags_overlap (p_tags p) ts else True)
       | None \<Rightarrow> True) \<and>
      (if truthy_number uid
       then (case uid of Some (Num i) \<Rightarrow> p_user_id p = Some i | _ \<Rightarrow> False)
       else True))"

definition Post_findAll ::
  "db \<Rightarrow> number \<Rightarrow> number \<Rightarrow> string list option \<Rightarrow> number option \<Rightarrow> js_error + post_page" where
  "Post_findAll d page limit tags uid =
     (let offset = js_offset page limit;
          matching = filter (findAll_where tags uid) (posts d)
      in case limit_offset limit offset (newest_first (join_views d matching)) of
           Inl e \<Rightarrow> Inl e
         | Inr rows \<Rightarrow>
             (let tot = length matching
              in Inr \<lparr>pp_posts = rows,
                      pp_pagination = \<lparr>pg_page = page, pg_limit = limit, pg_total = tot,
                                        pg_pages = ceil_div tot limit\<rparr>\<rparr>))"

fun like_match :: "string \<Rightarrow> string \<Rightarrow> bool" where
  \<comment> \<open>the LIKE operator, pattern first: \<open>%\<close> stands for any string, \<open>_\<close> for any one
      character, and a backslash makes the next pattern character literal. A pattern that
      ends in a lone backslash is rejected by the store; the patterns of \<open>Post.search\<close> end
      in \<open>%\<close> and never reach that equation.\<close>
  "like_match [] s = (s = [])"
| "like_match (c # p) s =
     (if c = CHR ''%'' then list_ex (\<lambda>k. like_match p (drop k s)) [0..<Suc (length s)]
      else if c = CHR ''_'' then (case s of [] \<Rightarrow> False | _ # s' \<Rightarrow> like_match p s')
      else if c = CHR 0x5C then
        (case p of
           [] \<Rightarrow> False
         | e # p' \<Rightarrow> (case s of [] \<Rightarrow> False | x # s' \<Rightarrow> x = e \<and> like_match p' s'))
      else (case s of [] \<Rightarrow> False | x # s' \<Rightarrow> x = c \<and> like_match p s'))"

declare like_match.simps [simp del]

definition ilike :: "string option \<Rightarrow> string \<Rightarrow> bool" where
  \<comment> \<open>\<open>column ILIKE pattern\<close>: LIKE on the case-folded column and pattern; a NULL column
      matches nothing\<close>
  "ilike col pat =
     (case col of None \<Rightarrow> False | Some s \<Rightarrow> like_match (toLowerCase pat) (toLowerCase s))"

definition search_where :: "string \<Rightarrow> post_row \<Rightarrow> bool" where
  "search_where searchTerm p =
     (let pat = ''%'' @ searchTerm @ ''%''
      in p_published p \<and>
         (ilike (Some (p_title p)) pat \<or> ilike (p_excerpt p) pat \<or> ilike (Some (p_body p)) pat))"

definition Post_search :: "db \<Rightarrow> string \<Rightarrow> number \<Rightarrow> number \<Rightarrow> js_error + post_page" where
  "Post_search d searchTerm page limit =
     (let offset = js_offset page limit;
          matching = filter (search_where searchTerm) (posts d)
      in case limit_offset limit offset (newest_first (join_views d matching)) of
           Inl e \<Rightarrow> Inl e
         | Inr rows \<Rightarrow>
             (let tot = length matching
              in Inr \<lparr>pp_posts = rows,
                      pp_pagination = \<lparr>pg_page = page, pg_limit = limit, pg_total = tot,
                                        pg_pages = ceil_div tot limit\<rparr>\<rparr>))"

definition user_likes :: "db \<Rightarrow> int \<Rightarrow> int option \<Rightarrow> bool" where
  \<comment> \<open>the column \<open>user_liked\<close>: \<open>COUNT(DISTINCT ul.id) > 0\<close> when a user id is given,
      \<open>false\<close> otherwise\<close>
  "user_likes d pid uid =
     (if truthy_id uid
      then filter (\<lambda>l. l_post_id l = Some pid \<and> l_user_id l = uid) (likes d) \<noteq> []
      else False)"

definition mk_detail :: "db \<Rightarrow> int option \<Rightarrow> post_row \<Rightarrow> user_row \<Rightarrow> post_detail" where
  "mk_detail d uid p u =
     \<lparr>pv_post = p, author_name = u_name u, author_avatar = u_avatar_url u,
      likes_count = count_likes d (p_id p), comments_count = count_comments d (p_id p),
      author_bio = u_bio u, user_liked = user_likes d (p_id p) uid\<rparr>"

definition join_details :: "db \<Rightarrow> int option \<Rightarrow> post_row list \<Rightarrow> post_detail list" where
  "join_details d uid ps = concat (map (\<lambda>p. map (mk_detail d uid p) (authors_of d p)) ps)"

definition first_row :: "'a list \<Rightarrow> 'a option" where
  \<comment> \<open>\<open>rows.length === 0 ? null : rows[0]\<close>\<close>
  "first_row rows = (case rows of [] \<Rightarrow> None | r # _ \<Rightarrow> Some r)"

definition Post_findById :: "db \<Rightarrow> int \<Rightarrow> int option \<Rightarrow> post_detail option" where
  "Post_findById d i uid =
     first_row (join_details d uid (filter (\<lambda>p. p_id p = i) (posts d)))"

definition Post_findBySlug :: "db \<Rightarrow> string \<Rightarrow> int option \<Rightarrow> post_detail option" where
  "Post_findBySlug d slug uid =
     first_row (join_details d uid (filter (\<lambda>p. p_slug p = slug \<and> p_published p) (posts d)))"

definition Post_incrementViews :: "db \<Rightarrow> int \<Rightarrow> db" where
  \<comment> \<open>\<open>UPDATE posts SET views = views + 1 WHERE id = $1\<close>\<close>
  "Post_incrementViews d i =
     d\<lparr>posts := map (\<lambda>p. if p_id p = i then p\<lparr>p_views := p_views p + 1\<rparr> else p) (posts d)\<rparr>"

subsection \<open>The probing loop of generateUniqueSlug\<close>

definition slug_taken :: "db \<Rightarrow> int option \<Rightarrow> string \<Rightarrow> bool" where
  \<comment> \<open>\<open>existingPost.rows.length !== 0\<close>: the probe excludes a post only when excludeId is
      truthy\<close>
  "slug_taken d excludeId slug =
     (if truthy_id excludeId
      then filter (\<lambda>p. p_slug p = slug \<and> Some (p_id p) \<noteq> excludeId) (posts d) \<noteq> []
      else filter (\<lambda>p. p_slug p = slug) (posts d) \<noteq> [])"

definition candidate :: "string \<Rightarrow> nat \<Rightarrow> string" where
  \<comment> \<open>the template literal \<open>`${baseSlug}-${counter}`\<close>\<close>
  "candidate baseSlug counter = baseSlug @ ''-'' @ show_nat counter"

text \<open>
  The loop \<open>while (true)\<close> ends: the candidates \<open>base-1, base-2, ...\<close> are pairwise
  different strings and the table is finite, so with each probe that finds a row, fewer
  taken candidates lie ahead of the counter.
\<close>

function unique_slug_loop :: "db \<Rightarrow> int option \<Rightarrow> string \<Rightarrow> string \<Rightarrow> nat \<Rightarrow> string" where
  "unique_slug_loop d excludeId baseSlug slug counter =
     (if \<not> slug_taken d excludeId slug then slug
      else unique_slug_loop d excludeId baseSlug (candidate baseSlug counter) (counter + 1))"
  by pat_completeness auto
termination
proof (relation "measure (\<lambda>(d, e, b, s, c).
          if slug_taken d e s then Suc (card {k. c \<le> k \<and> slug_taken d e (candidate b k)}) else 0)")
  show "wf (measure (\<lambda>(d, e, b, s, c).
          if slug_taken d e s then Suc (card {k. c \<le> k \<and> slug_taken d e (candidate b k)}) else 0))"
    by simp
next
  fix d :: db and excludeId :: "int option" and baseSlug slug :: string and counter :: nat
  assume taken: "\<not> \<not> slug_taken d excludeId slug"
  let ?A = "{k. counter \<le> k \<and> slug_taken d excludeId (candidate baseSlug k)}"
  let ?B = "{k. counter + 1 \<le> k \<and> slug_taken d excludeId (candidate baseSlug k)}"
  have digit: "\<And>v. v < 10 \<Longrightarrow> digit_val (digit_char v) = Some v"
    by (simp add: digit_val_def digit_char_def)
  have val: "\<And>n. radix_val 10 (show_nat n) = n"
  proof -
    fix n
    show "radix_val 10 (show_nat n) = n"
    proof (induction n rule: show_nat.induct)
      case (1 n)
      show ?case
      proof (cases "n < 10")
        case True
        then show ?thesis
          by (subst show_nat.simps) (simp add: radix_val_def digit)
      next
        case False
        have "radix_val 10 (show_nat n) =
              radix_val 10 (show_nat (n div 10) @ [digit_char (n mod 10)])"
          using False by (subst show_nat.simps) simp
        also have "\<dots> = radix_val 10 (show_nat (n div 10)) * 10 + n mod 10"
          by (simp add: radix_val_def digit)
        also have "\<dots> = (n div 10) * 10 + n mod 10"
          using 1 [OF False] by simp
        finally show ?thesis by simp
      qed
    qed
  qed
  have inj: "inj (candidate baseSlug)"
  proof (rule injI)
    fix m n
    assume "candidate baseSlug m = candidate baseSlug n"
    then have "show_nat m = show_nat n" by (simp add: candidate_def)
    then have "radix_val 10 (show_nat m) = radix_val 10 (show_nat n)" by (rule arg_cong)
    then show "m = n" by (simp only: val)
  qed
  have "{k. slug_taken d excludeId (candidate baseSlug k)} \<subseteq>
        candidate baseSlug -` set (map p_slug (posts d))"
  proof
    fix k
    assume "k \<in> {k. slug_taken d excludeId (candidate baseSlug k)}"
    then obtain p where "p \<in> set (posts d)" "p_slug p = candidate baseSlug k"
      by (auto simp: slug_taken_def filter_empty_conv split: if_splits)
    then have "candidate baseSlug k \<in> p_slug ` set (posts d)" by (metis imageI)
    then show "k \<in> candidate baseSlug -` set (map p_slug (posts d))" by simp
  qed
  moreover have "finite (candidate baseSlug -` set (map p_slug (posts d)))"
    using inj by (intro finite_vimageI) simp_all
  ultimately have "finite {k. slug_taken d excludeId (candidate baseSlug k)}"
    by (rule finite_subset)
  then have fin: "finite ?A"
    by (rule rev_finite_subset) auto
  have "slug_taken d excludeId (candidate baseSlug counter) \<Longrightarrow> card ?B < card ?A"
  proof -
    assume "slug_taken d excludeId (candidate baseSlug counter)"
    then have "counter \<in> ?A" by simp
    moreover have "counter \<notin> ?B" by simp
    moreover have "?B \<subseteq> ?A" by auto
    ultimately have "?B \<subset> ?A" by blast
    with fin show ?thesis by (rule psubset_card_mono)
  qed
  with taken
  show "((d, excludeId, baseSlug, candidate baseSlug counter, counter + 1),
         (d, excludeId, baseSlug, slug, counter))
        \<in> measure (\<lambda>(d, e, b, s, c).
             if slug_taken d e s then Suc (card {k. c \<le> k \<and> slug_taken d e (candidate b k)}) else 0)"
    by simp
qed

declare unique_slug_loop.simps [simp del]

definition generateUniqueSlug :: "db \<Rightarrow> string \<Rightarrow> int option \<Rightarrow> string" where
  "generateUniqueSlug d title excludeId =
     (let baseSlug = generateSlug title in unique_slug_loop d excludeId baseSlug baseSlug 1)"

subsection \<open>Creating a post\<close>

record post_input =
  in_userId :: int
  in_title :: string
  in_excerpt :: "string option"
  in_body :: string
  in_imageUrl :: "string option"
  in_tags :: "string list"
  in_published :: bool

definition Post_create :: "db \<Rightarrow> int \<Rightarrow> post_input \<Rightarrow> (js_error + post_row) \<times> db" where
  \<comment> \<open>The slug stored is \<open>generateSlug(title)\<close>. The INSERT draws the next id from the
      sequence, and the constraint \<open>slug UNIQUE\<close> rejects a slug some row carries (SQLSTATE
      23505); the sequence keeps the id it drew. The second argument is the clock.\<close>
  "Post_create d now inp =
     (let slug = generateSlug (in_title inp);
          i = posts_id_seq d + 1;
          d1 = d\<lparr>posts_id_seq := i\<rparr>
      in if filter (\<lambda>p. p_slug p = slug) (posts d) \<noteq> []
         then (Inl (DbError ''23505'' ''duplicate key value violates unique constraint''), d1)
         else
           (let row = \<lparr>p_id = i, p_user_id = Some (in_userId inp), p_title = in_title inp,
                       p_excerpt = in_excerpt inp, p_body = in_body inp,
                       p_image_url = in_imageUrl inp, p_slug = slug, p_tags = in_tags inp,
                       p_published = in_published inp, p_views = 0, p_created_at = now\<rparr>
            in (Inr row, d1\<lparr>posts := posts d1 @ [row]\<rparr>)))"

section \<open>Post handlers (controllers/postController.js)\<close>

definition validateTitle :: "string option \<Rightarrow> bool" where
  "validateTitle title =
     (case title of
        None \<Rightarrow> False
      | Some t \<Rightarrow> t \<noteq> [] \<and> 3 \<le> length (js_trim t) \<and> length (js_trim t) \<le> 255)"

definition validateBody :: "string option \<Rightarrow> bool" where
  "validateBody body = (case body of None \<Rightarrow> False | Some b \<Rightarrow> b \<noteq> [] \<and> 10 \<le> length (js_trim b))"

definition validateTags :: "string list option \<Rightarrow> bool" where
  "validateTags tags =
     (case tags of
        None \<Rightarrow> True
      | Some ts \<Rightarrow>
          length ts \<le> 10 \<and>
          list_all (\<lambda>tag. 0 < length (js_trim tag) \<and> length (js_trim tag) \<le> 50) ts)"

definition createPost :: "db \<Rightarrow> int \<Rightarrow> request \<Rightarrow> (js_error + post_row) \<times> db" where
  \<comment> \<open>The handler computes \<open>generateUniqueSlug(title.trim())\<close> into a constant it never
      reads again: \<open>Post.create\<close> receives no slug.\<close>
  "createPost d now req =
     (if \<not> validateTitle (body_title req)
      then (Inl (AppError ''Title must be between 3 and 255 characters'' 400), d)
      else if \<not> validateBody (body_body req)
      then (Inl (AppError ''Body must be at least 10 characters long'' 400), d)
      else if \<not> validateTags (body_tags req)
      then (Inl (AppError
              ''Invalid tags format. Maximum 10 tags, each up to 50 characters'' 400), d)
      else if (case body_excerpt req of None \<Rightarrow> False | Some e \<Rightarrow> 500 < length e)
      then (Inl (AppError ''Excerpt must be less than 500 characters'' 400), d)
      else
        (let slug = generateUniqueSlug d (js_trim (the (body_title req))) None
         in case user req of
              None \<Rightarrow> (Inl (LibError ''TypeError'' ''Cannot read properties of undefined''), d)
            | Some u \<Rightarrow>
                Post_create d now
                  \<lparr>in_userId = au_id u,
                   in_title = js_trim (the (body_title req)),
                   in_excerpt = map_option js_trim (body_excerpt req),
                   in_body = js_trim (the (body_body req)),
                   in_imageUrl = body_imageUrl req,
                   in_tags = (case body_tags req of None \<Rightarrow> [] | Some ts \<Rightarrow> ts),
                   in_published = (case body_published req of None \<Rightarrow> False | Some b \<Rightarrow> b)\<rparr>))"

definition param_int :: "string option \<Rightarrow> int \<Rightarrow> number" where
  \<comment> \<open>\<open>parseInt(x)\<close> for a query parameter with a numeric default\<close>
  "param_int x dflt = (case x of None \<Rightarrow> Num dflt | Some s \<Rightarrow> parseInt s)"

definition tags_filter :: "tags_param \<Rightarrow> string list" where
  \<comment> \<open>\<open>tagsArray.map(tag => tag.trim()).filter(Boolean)\<close>\<close>
  "tags_filter t =
     filter (\<lambda>tag. tag \<noteq> [])
       (map js_trim (case t of TagArray ts \<Rightarrow> ts | TagString s \<Rightarrow> split_on CHR '','' s))"

definition truthy_tags :: "tags_param option \<Rightarrow> bool" where
  "truthy_tags t = (case t of None \<Rightarrow> False | Some (TagString s) \<Rightarrow> s \<noteq> [] | Some (TagArray ts) \<Rightarrow> True)"

definition getPosts :: "db \<Rightarrow> request \<Rightarrow> js_error + post_page" where
  "getPosts d req =
     (let pageNum = Math_max 1 (param_int (query_page req) 1);
          limitNum = Math_min 50 (Math_max 1 (param_int (query_limit req) 10))
      in if \<not> falsy_string (query_search req)
         then Post_search d (the (query_search req)) pageNum limitNum
         else
           Post_findAll d pageNum limitNum
             (if truthy_tags (query_tags req) then Some (tags_filter (the (query_tags req)))
              else None)
             (if \<not> falsy_string (query_author req)
              then Some (parseInt (the (query_author req))) else None))"

definition digits_only :: "string \<Rightarrow> bool" where
  \<comment> \<open>\<open>/^\d+$/.test(identifier)\<close>\<close>
  "digits_only s = (s \<noteq> [] \<and> list_all is_digit s)"

definition getPost :: "db \<Rightarrow> request \<Rightarrow> (js_error + post_detail) \<times> db" where
  "getPost d req =
     (let identifier = params_identifier req;
          uid = map_option au_id (user req);
          post =
            (if digits_only identifier
             then (case parseInt identifier of
                     Num i \<Rightarrow> Post_findById d i uid
                   | _ \<Rightarrow> None)
             else Post_findBySlug d identifier uid)
      in case post of
           None \<Rightarrow> (Inl (AppError ''Post not found'' 404), d)
         | Some p \<Rightarrow> (Inr p, Post_incrementViews d (p_id (pv_post p))))"

section \<open>Likes (models/Like.js, controllers/likeController.js)\<close>













section \<open>Notions used in the statements\<close>

text \<open>
  The predicates below name what the claims talk about (a resource and its owner, the
  WHERE clause a list request ends up with, substrings, the two orderings); they are part
  of the statements, not of the program.
\<close>

definition slug_body :: "string \<Rightarrow> string" where
  \<comment> \<open>the value \<open>generateSlug\<close> hands to \<open>trim\<close>\<close>
  "slug_body title =
     replace_runs is_hyphen ''-''
       (replace_runs js_whitespace ''-'' (filter slug_char (toLowerCase title)))"

definition slugs_unique :: "db \<Rightarrow> bool" where
  \<comment> \<open>the constraint \<open>slug UNIQUE\<close> of the posts table\<close>
  "slugs_unique d = distinct (map p_slug (posts d))"

definition owned_by :: "db \<Rightarrow> string \<Rightarrow> int \<Rightarrow> int option \<Rightarrow> bool" where
  \<comment> \<open>a resource of the kind with the id exists and its owner column holds the value\<close>
  "owned_by d resourceType i owner =
     ((resourceType = ''post'' \<and> (\<exists>p \<in> set (posts d). p_id p = i \<and> p_user_id p = owner)) \<or>
      (resourceType = ''comment'' \<and>
         (\<exists>c \<in> set (comments d). c_id c = i \<and> c_user_id c = owner)))"

definition resource_exists :: "db \<Rightarrow> string \<Rightarrow> int \<Rightarrow> bool" where
  "resource_exists d resourceType i =
     ((resourceType = ''post'' \<and> (\<exists>p \<in> set (posts d). p_id p = i)) \<or>
      (resourceType = ''comment'' \<and> (\<exists>c \<in> set (comments d). c_id c = i)))"

definition owner_rows :: "db \<Rightarrow> string \<Rightarrow> int \<Rightarrow> int option list" where
  "owner_rows d resourceType i =
     (if resourceType = ''post'' then select_post_owner d i else select_comment_owner d i)"



definition contains :: "string \<Rightarrow> string \<Rightarrow> bool" where
  \<comment> \<open>the first string occurs in the second as a substring\<close>
  "contains t s = list_ex (\<lambda>k. take (length t) (drop k s) = t) [0..<Suc (length s)]"





subsection \<open>Example data\<close>

text \<open>
  Small stores and requests on which the theorems are instantiated: a store of two users
  and three posts, one of them a draft; a store of five published posts; a store whose
  draft has a slug made of digits.
\<close>

definition example_db :: db where
  "example_db =
     \<lparr>users =
        [\<lparr>u_id = 1, u_name = ''Alice'', u_email = ''alice@example.org'',
          u_password_hash = ''x'', u_avatar_url = None, u_bio = None, u_created_at = 10\<rparr>,
         \<lparr>u_id = 2, u_name = ''Bob'', u_email = ''bob@example.org'',
          u_password_hash = ''y'', u_avatar_url = None, u_bio = Some ''writer'',
          u_created_at = 20\<rparr>],
      posts =
        [\<lparr>p_id = 1, p_user_id = Some 1, p_title = ''Hello, World!'', p_excerpt = None,
          p_body = ''first body text'', p_image_url = None, p_slug = ''hello-world'',
          p_tags = [''news''], p_published = True, p_views = 0, p_created_at = 100\<rparr>,
         \<lparr>p_id = 2, p_user_id = Some 2, p_title = ''Draft notes'', p_excerpt = Some ''soon'',
          p_body = ''not yet public'', p_image_url = None, p_slug = ''draft-notes'',
          p_tags = [], p_published = False, p_views = 0, p_created_at = 200\<rparr>,
         \<lparr>p_id = 3, p_user_id = Some 2, p_title = ''abc'', p_excerpt = None,
          p_body = ''second body text'', p_image_url = None, p_slug = ''abc'',
          p_tags = [''tech'', ''news''], p_published = True, p_views = 5, p_created_at = 300\<rparr>],
      comments =
        [\<lparr>c_id = 1, c_post_id = Some 1, c_user_id = Some 2, c_text = ''nice'',
          c_created_at = 150\<rparr>],
      likes =
        [\<lparr>l_id = 1, l_post_id = Some 1, l_user_id = Some 2, l_created_at = 160\<rparr>,
         \<lparr>l_id = 2, l_post_id = Some 3, l_user_id = Some 1, l_created_at = 310\<rparr>,
         \<lparr>l_id = 3, l_post_id = Some 3, l_user_id = Some 2, l_created_at = 320\<rparr>],
      posts_id_seq = 3, likes_id_seq = 3\<rparr>"

definition alice :: auth_user where
  "alice =
     \<lparr>au_id = 1, au_name = ''Alice'', au_email = ''alice@example.org'', au_avatar_url = None,
      au_bio = None, au_created_at = 10\<rparr>"

definition example_coerce :: "string \<Rightarrow> int option" where
  "example_coerce s = (case parseInt s of Num i \<Rightarrow> Some i | _ \<Rightarrow> None)"



definition create_request :: "string \<Rightarrow> request" where
  "create_request title =
     blank_request\<lparr>user := Some alice, body_title := Some title,
                    body_body := Some ''another body text''\<rparr>"


definition small_db :: db where
  "small_db =
     \<lparr>users =
        [\<lparr>u_id = 1, u_name = ''Alice'', u_email = ''alice@example.org'',
          u_password_hash = ''x'', u_avatar_url = None, u_bio = None, u_created_at = 10\<rparr>],
      posts =
        [\<lparr>p_id = 7, p_user_id = Some 1, p_title = ''007'', p_excerpt = None,
          p_body = ''a draft about agents'', p_image_url = None, p_slug = ''007'',
          p_tags = [], p_published = False, p_views = 0, p_created_at = 100\<rparr>,
         \<lparr>p_id = 8, p_user_id = Some 1, p_title = ''My Title'', p_excerpt = None,
          p_body = ''plain words here'', p_image_url = None, p_slug = ''my-title'',
          p_tags = [''news''], p_published = True, p_views = 0, p_created_at = 200\<rparr>],
      comments = [], likes = [], posts_id_seq = 8, likes_id_seq = 0\<rparr>"


section \<open>Properties of the slug derivation\<close>

lemma slug_char_lower: "slug_char c \<Longrightarrow> toLowerCase_char c = c"
  by (auto simp: slug_char_def toLowerCase_char_def Let_def)

lemma hyphen_slug_char: "slug_char CHR ''-''"
  by (simp add: slug_char_def)

lemma hyphen_not_ws: "\<not> js_whitespace CHR ''-''"
  by (simp add: js_whitespace_def)

lemma set_replace_runs: "set (replace_runs P r s) \<subseteq> set r \<union> {c \<in> set s. \<not> P c}"
proof (induction P r s rule: replace_runs.induct)
  case (1 P r)
  then show ?case by (simp add: replace_runs.simps)
next
  case (2 P r c cs)
  show ?case
  proof (cases "P c")
    case True
    have "set (dropWhile P cs) \<subseteq> set cs" by (rule set_dropWhileD [THEN subsetI])
    with 2(1)[OF True] True show ?thesis by (auto simp: replace_runs.simps)
  next
    case False
    with 2(2)[OF False] show ?thesis by (auto simp: replace_runs.simps)
  qed
qed

lemma replace_runs_none: "\<forall>c \<in> set s. \<not> P c \<Longrightarrow> replace_runs P r s = s"
  by (induction s) (auto simp: replace_runs.simps)

lemma dropWhile_replace_runs:
  "s = [] \<or> \<not> P (hd s) \<Longrightarrow> dropWhile P (replace_runs P r s) = replace_runs P r s"
  by (cases s) (auto simp: replace_runs.simps)

lemma replace_runs_idem:
  "P h \<Longrightarrow> replace_runs P [h] (replace_runs P [h] s) = replace_runs P [h] s"
proof (induction P "[h]" s rule: replace_runs.induct)
  case (1 P)
  then show ?case by (simp add: replace_runs.simps)
next
  case (2 P c cs)
  show ?case
  proof (cases "P c")
    case True
    have hd: "dropWhile P cs = [] \<or> \<not> P (hd (dropWhile P cs))"
      using hd_dropWhile [of P cs] by blast
    have "dropWhile P (replace_runs P [h] (dropWhile P cs)) = replace_runs P [h] (dropWhile P cs)"
      using hd by (rule dropWhile_replace_runs)
    with True 2(1)[OF True 2(3)] 2(3) show ?thesis by (simp add: replace_runs.simps)
  next
    case False
    with 2(2)[OF False 2(3)] show ?thesis by (simp add: replace_runs.simps)
  qed
qed

lemma js_trim_none: "\<forall>c \<in> set s. \<not> js_whitespace c \<Longrightarrow> js_trim s = s"
proof -
  assume a: "\<forall>c \<in> set s. \<not> js_whitespace c"
  then have "dropWhile js_whitespace s = s" by (cases s) auto
  moreover from a have "dropWhile js_whitespace (rev s) = rev s"
    by (cases "rev s") (auto dest: arg_cong [where f = set])
  ultimately show ?thesis by (simp add: js_trim_def)
qed

lemma slug_body_chars:
  assumes "c \<in> set (slug_body title)"
  shows "slug_char c \<and> \<not> js_whitespace c"
proof -
  let ?f = "filter slug_char (toLowerCase title)"
  let ?w = "replace_runs js_whitespace ''-'' ?f"
  have w: "set ?w \<subseteq> {CHR ''-''} \<union> {c \<in> set ?f. \<not> js_whitespace c}"
    using set_replace_runs [of js_whitespace "''-''" ?f] by simp
  have "set (slug_body title) \<subseteq> {CHR ''-''} \<union> set ?w"
    using set_replace_runs [of is_hyphen "''-''" ?w] by (auto simp: slug_body_def)
  with w assms have "c = CHR ''-'' \<or> (c \<in> set ?f \<and> \<not> js_whitespace c)" by auto
  then show ?thesis using hyphen_slug_char hyphen_not_ws by auto
qed

lemma generateSlug_body: "generateSlug title = slug_body title"
proof -
  have "js_trim (slug_body title) = slug_body title"
    by (rule js_trim_none) (use slug_body_chars in blast)
  then show ?thesis by (simp add: generateSlug_def slug_body_def)
qed

text \<open>
  Claim C1. The slug of a title is the title lowercased, stripped of the characters
  outside \<open>[a-z0-9 -]\<close>, with white-space runs and hyphen runs each replaced by one hyphen,
  and with leading and trailing hyphens removed, so that it never begins or ends with a
  hyphen. The code's last step is \<open>.trim('-')\<close>, which ignores its argument and strips
  white space, of which none is left: on the title \<open>Hello !\<close> the code returns \<open>hello-\<close>,
  where the derivation the claim describes gives \<open>hello\<close>.
\<close>

theorem generateSlug_keeps_trailing_hyphen:
  "generateSlug ''Hello !'' = ''hello-'' \<and> slugify_spec ''Hello !'' = ''hello''"
  by code_simp

text \<open>
  Claim C7. Deriving a slug is idempotent: the slug of a slug is that slug.
\<close>

theorem generateSlug_idempotent: "generateSlug (generateSlug title) = generateSlug title"
proof -
  let ?s = "slug_body title"
  have chars: "\<forall>c \<in> set ?s. slug_char c \<and> \<not> js_whitespace c"
    using slug_body_chars by blast
  have l: "toLowerCase ?s = ?s"
    unfolding toLowerCase_def using chars by (simp add: map_idI slug_char_lower)
  have f: "filter slug_char ?s = ?s" using chars by simp
  have w: "replace_runs js_whitespace ''-'' ?s = ?s"
    by (rule replace_runs_none) (use chars in blast)
  have h: "replace_runs is_hyphen ''-'' ?s = ?s"
    unfolding slug_body_def by (rule replace_runs_idem) (simp add: is_hyphen_def)
  have "slug_body ?s = ?s"
    using l f w h by (simp add: slug_body_def [of ?s])
  then show ?thesis by (simp add: generateSlug_body)
qed

theorem generateSlug_idempotent_witness:
  "generateSlug ''  Hello,  World! -'' = ''-hello-world-'' \<and>
   generateSlug (generateSlug ''  Hello,  World! -'') = ''-hello-world-''"
proof -
  have a: "generateSlug ''  Hello,  World! -'' = ''-hello-world-''" by code_simp
  show ?thesis using generateSlug_idempotent [of "''  Hello,  World! -''"] a by simp
qed

section \<open>Properties of the guards\<close>

lemma example_db_keys: "primary_keys example_db"
  by (simp add: primary_keys_def example_db_def)

lemma key_filter_single:
  assumes "distinct (map k xs)" and "x \<in> set xs"
  shows "filter (\<lambda>y. k y = k x) xs = [x]"
  using assms
proof (induction xs)
  case Nil
  then show ?case by simp
next
  case (Cons a xs)
  show ?case
  proof (cases "a = x")
    case True
    have "\<forall>y \<in> set xs. k y \<noteq> k x" using Cons.prems(1) True by (auto simp: image_iff)
    then have "filter (\<lambda>y. k y = k x) xs = []" by (simp add: filter_empty_conv)
    with True show ?thesis by simp
  next
    case False
    with Cons.prems have xin: "x \<in> set xs" by simp
    with Cons.prems(1) have "k a \<noteq> k x" by (auto simp: image_iff)
    moreover have "filter (\<lambda>y. k y = k x) xs = [x]"
      using Cons.IH Cons.prems(1) xin by simp
    ultimately show ?thesis by simp
  qed
qed

lemma post_owner_cases:
  assumes "distinct (map p_id (posts d))"
  shows "(select_post_owner d i = [] \<longleftrightarrow> \<not> (\<exists>p \<in> set (posts d). p_id p = i)) \<and>
         (\<forall>p \<in> set (posts d). p_id p = i \<longrightarrow> select_post_owner d i = [p_user_id p])"
proof (intro conjI ballI impI)
  show "select_post_owner d i = [] \<longleftrightarrow> \<not> (\<exists>p \<in> set (posts d). p_id p = i)"
    by (auto simp: select_post_owner_def filter_empty_conv)
next
  fix p assume "p \<in> set (posts d)" "p_id p = i"
  then show "select_post_owner d i = [p_user_id p]"
    using key_filter_single [OF assms, of p] by (simp add: select_post_owner_def)
qed

lemma comment_owner_cases:
  assumes "distinct (map c_id (comments d))"
  shows "(select_comment_owner d i = [] \<longleftrightarrow> \<not> (\<exists>c \<in> set (comments d). c_id c = i)) \<and>
         (\<forall>c \<in> set (comments d). c_id c = i \<longrightarrow> select_comment_owner d i = [c_user_id c])"
proof (intro conjI ballI impI)
  show "select_comment_owner d i = [] \<longleftrightarrow> \<not> (\<exists>c \<in> set (comments d). c_id c = i)"
    by (auto simp: select_comment_owner_def filter_empty_conv)
next
  fix c assume "c \<in> set (comments d)" "c_id c = i"
  then show "select_comment_owner d i = [c_user_id c]"
    using key_filter_single [OF assms, of c] by (simp add: select_comment_owner_def)
qed

lemma owner_rows_cases:
  assumes "primary_keys d" and "resourceType = ''post'' \<or> resourceType = ''comment''"
  shows "(owner_rows d resourceType i = [] \<longleftrightarrow> \<not> (\<exists>owner. owned_by d resourceType i owner)) \<and>
         (\<forall>owner. owned_by d resourceType i owner \<longrightarrow> owner_rows d resourceType i = [owner])"
proof (cases "resourceType = ''post''")
  case True
  have pk: "distinct (map p_id (posts d))" using assms(1) by (simp add: primary_keys_def)
  show ?thesis
    using post_owner_cases [OF pk, of i] True
    by (auto simp: owner_rows_def owned_by_def)
next
  case False
  with assms(2) have c: "resourceType = ''comment''" by simp
  have pk: "distinct (map c_id (comments d))" using assms(1) by (simp add: primary_keys_def)
  show ?thesis
    using comment_owner_cases [OF pk, of i] c
    by (auto simp: owner_rows_def owned_by_def)
qed

lemma checkOwnership_rows:
  assumes "resourceType = ''post'' \<or> resourceType = ''comment''"
    and "user req = Some u" and "coerce (params_id req) = Some i"
  shows "checkOwnership coerce resourceType d req =
           owner_check resourceType (au_id u) req (owner_rows d resourceType i)"
  using assms by (auto simp: checkOwnership_def owner_rows_def)

text \<open>
  Claim C2. For a resource kind among post and comment, a resource id and an
  authenticated acting user, the ownership guard fails with a not-found error (404) when
  no resource with the id exists, fails with a permission error (403) when the resource
  exists and its owning user id differs from the acting user's id, and passes control on
  without an error exactly when the resource exists and its owning user id is the acting
  user's id. The id is the integer the store reads from the route parameter; the tables
  satisfy their primary keys.
\<close>

theorem checkOwnership_outcomes:
  assumes "resourceType = ''post'' \<or> resourceType = ''comment''"
    and "user req = Some u"
    and "coerce (params_id req) = Some i"
    and "primary_keys d"
  shows "(\<not> resource_exists d resourceType i \<longrightarrow>
            checkOwnership coerce resourceType d req =
              Inl (AppError (resourceType @ '' not found'') 404)) \<and>
         (resource_exists d resourceType i \<and> \<not> owned_by d resourceType i (Some (au_id u)) \<longrightarrow>
            checkOwnership coerce resourceType d req =
              Inl (AppError (''Access denied. You don't own this '' @ resourceType @ ''.'') 403)) \<and>
         ((\<exists>r. checkOwnership coerce resourceType d req = Inr r) \<longleftrightarrow>
            owned_by d resourceType i (Some (au_id u))) \<and>
         (owned_by d resourceType i (Some (au_id u)) \<longrightarrow>
            checkOwnership coerce resourceType d req = Inr req)"
proof -
  note rows = owner_rows_cases [OF assms(4) assms(1), of i]
  have ex: "resource_exists d resourceType i \<longleftrightarrow> (\<exists>owner. owned_by d resourceType i owner)"
    by (auto simp: resource_exists_def owned_by_def)
  have co: "checkOwnership coerce resourceType d req =
              owner_check resourceType (au_id u) req (owner_rows d resourceType i)"
    using assms(1-3) by (rule checkOwnership_rows)
  have a: "\<not> resource_exists d resourceType i \<longrightarrow>
            checkOwnership coerce resourceType d req =
              Inl (AppError (resourceType @ '' not found'') 404)"
  proof
    assume "\<not> resource_exists d resourceType i"
    with rows ex have "owner_rows d resourceType i = []" by blast
    then show "checkOwnership coerce resourceType d req =
              Inl (AppError (resourceType @ '' not found'') 404)"
      by (simp add: co owner_check_def)
  qed
  have b: "resource_exists d resourceType i \<and> \<not> owned_by d resourceType i (Some (au_id u)) \<longrightarrow>
            checkOwnership coerce resourceType d req =
              Inl (AppError (''Access denied. You don't own this '' @ resourceType @ ''.'') 403)"
  proof
    assume o: "resource_exists d resourceType i \<and> \<not> owned_by d resourceType i (Some (au_id u))"
    then obtain owner where ow: "owned_by d resourceType i owner" using ex by blast
    with o have ne: "owner \<noteq> Some (au_id u)" by blast
    from ow rows have "owner_rows d resourceType i = [owner]" by blast
    with ne show "checkOwnership coerce resourceType d req =
              Inl (AppError (''Access denied. You don't own this '' @ resourceType @ ''.'') 403)"
      by (simp add: co owner_check_def)
  qed
  have d: "owned_by d resourceType i (Some (au_id u)) \<longrightarrow>
            checkOwnership coerce resourceType d req = Inr req"
  proof
    assume "owned_by d resourceType i (Some (au_id u))"
    with rows have "owner_rows d resourceType i = [Some (au_id u)]" by blast
    then show "checkOwnership coerce resourceType d req = Inr req"
      by (simp add: co owner_check_def)
  qed
  have c: "(\<exists>r. checkOwnership coerce resourceType d req = Inr r) \<longleftrightarrow>
            owned_by d resourceType i (Some (au_id u))"
  proof
    assume "\<exists>r. checkOwnership coerce resourceType d req = Inr r"
    then obtain r where r: "owner_check resourceType (au_id u) req (owner_rows d resourceType i) = Inr r"
      using co by auto
    then obtain owner rest where o: "owner_rows d resourceType i = owner # rest" "owner = Some (au_id u)"
      by (auto simp: owner_check_def split: list.splits if_splits)
    then have "\<exists>ow. owned_by d resourceType i ow" using rows by auto
    then obtain ow where ow: "owned_by d resourceType i ow" by blast
    with rows have "owner_rows d resourceType i = [ow]" by blast
    with o have "ow = Some (au_id u)" by simp
    with ow show "owned_by d resourceType i (Some (au_id u))" by simp
  next
    assume "owned_by d resourceType i (Some (au_id u))"
    with d show "\<exists>r. checkOwnership coerce resourceType d req = Inr r" by blast
  qed
  from a b c d show ?thesis by blast
qed

theorem checkOwnership_outcomes_witness:
  "checkOwnership example_coerce ''post'' example_db
     (blank_request\<lparr>user := Some alice, params_id := ''99''\<rparr>) =
     Inl (AppError ''post not found'' 404) \<and>
   checkOwnership example_coerce ''post'' example_db
     (blank_request\<lparr>user := Some alice, params_id := ''2''\<rparr>) =
     Inl (AppError ''Access denied. You don't own this post.'' 403) \<and>
   checkOwnership example_coerce ''post'' example_db
     (blank_request\<lparr>user := Some alice, params_id := ''1''\<rparr>) =
     Inr (blank_request\<lparr>user := Some alice, params_id := ''1''\<rparr>) \<and>
   checkOwnership example_coerce ''comment'' example_db
     (blank_request\<lparr>user := Some alice, params_id := ''1''\<rparr>) =
     Inl (AppError ''Access denied. You don't own this comment.'' 403)"
proof -
  let ?r99 = "blank_request\<lparr>user := Some alice, params_id := ''99''\<rparr>"
  let ?r2 = "blank_request\<lparr>user := Some alice, params_id := ''2''\<rparr>"
  let ?r1 = "blank_request\<lparr>user := Some alice, params_id := ''1''\<rparr>"
  have c99: "example_coerce (params_id ?r99) = Some 99" by code_simp
  have c2: "example_coerce (params_id ?r2) = Some 2" by code_simp
  have c1: "example_coerce (params_id ?r1) = Some 1" by code_simp
  have e99: "\<not> resource_exists example_db ''post'' 99" by code_simp
  have e2: "resource_exists example_db ''post'' 2 \<and>
            \<not> owned_by example_db ''post'' 2 (Some (au_id alice))" by code_simp
  have e1: "owned_by example_db ''post'' 1 (Some (au_id alice))" by code_simp
  have ec: "resource_exists example_db ''comment'' 1 \<and>
            \<not> owned_by example_db ''comment'' 1 (Some (au_id alice))" by code_simp
  have t99: "checkOwnership example_coerce ''post'' example_db ?r99 =
               Inl (AppError ''post not found'' 404)"
    using checkOwnership_outcomes [where resourceType = "''post''" and req = ?r99 and u = alice
            and coerce = example_coerce and i = 99 and d = example_db]
          c99 example_db_keys e99 by simp
  have t2: "checkOwnership example_coerce ''post'' example_db ?r2 =
               Inl (AppError ''Access denied. You don't own this post.'' 403)"
    using checkOwnership_outcomes [where resourceType = "''post''" and req = ?r2 and u = alice
            and coerce = example_coerce and i = 2 and d = example_db]
          c2 example_db_keys e2 by simp
  have t1: "checkOwnership example_coerce ''post'' example_db ?r1 = Inr ?r1"
    using checkOwnership_outcomes [where resourceType = "''post''" and req = ?r1 and u = alice
            and coerce = example_coerce and i = 1 and d = example_db]
          c1 example_db_keys e1 by simp
  have tc: "checkOwnership example_coerce ''comment'' example_db ?r1 =
               Inl (AppError ''Access denied. You don't own this comment.'' 403)"
    using checkOwnership_outcomes [where resourceType = "''comment''" and req = ?r1 and u = alice
            and coerce = example_coerce and i = 1 and d = example_db]
          c1 example_db_keys ec by simp
  from t99 t2 t1 tc show ?thesis by simp
qed





section \<open>Properties of the like toggle\<close>

lemma key_filter_le1: "distinct (map k xs) \<Longrightarrow> length (filter (\<lambda>x. k x = v) xs) \<le> 1"
proof (induction xs)
  case Nil
  then show ?case by simp
next
  case (Cons a xs)
  show ?case
  proof (cases "k a = v")
    case True
    have "\<forall>y \<in> set xs. k y \<noteq> v" using Cons.prems True by (auto simp: image_iff)
    then have "filter (\<lambda>x. k x = v) xs = []" by (simp add: filter_empty_conv)
    with True show ?thesis by simp
  next
    case False
    with Cons show ?thesis by simp
  qed
qed











section \<open>Properties of the post listing\<close>

lemma authors_of_le1:
  assumes "primary_keys d"
  shows "length (authors_of d p) \<le> 1"
proof (cases "p_user_id p")
  case None
  then show ?thesis by (simp add: authors_of_def)
next
  case (Some i)
  have "distinct (map u_id (users d))" using assms by (simp add: primary_keys_def)
  then have "length (filter (\<lambda>u. u_id u = i) (users d)) \<le> 1" by (rule key_filter_le1)
  moreover have "authors_of d p = filter (\<lambda>u. u_id u = i) (users d)"
    using Some by (auto simp: authors_of_def intro: filter_cong)
  ultimately show ?thesis by simp
qed









lemma getPosts_limit_not_a_number:
  assumes "param_int (query_limit req) 10 = NaN"
  shows "getPosts d req = Inl (DbError ''22P02'' ''invalid input syntax for type bigint'')"
proof (cases "Math_max 1 (param_int (query_page req) 1)")
  case NaN
  with assms show ?thesis
    by (simp add: getPosts_def Post_findAll_def Post_search_def Let_def limit_offset_def
          js_offset_def)
next
  case PosInfinity
  with assms show ?thesis
    by (simp add: getPosts_def Post_findAll_def Post_search_def Let_def limit_offset_def
          js_offset_def)
next
  case (Num i)
  with assms show ?thesis
    by (simp add: getPosts_def Post_findAll_def Post_search_def Let_def limit_offset_def
          js_offset_def)
qed



subsection \<open>Search mode and filter mode\<close>

lemma list_ex_upto: "list_ex P [0..<Suc n] \<longleftrightarrow> (\<exists>k \<le> n. P k)"
proof -
  have "set [0..<Suc n] = {k. k \<le> n}" by (auto simp del: upt_Suc)
  then show ?thesis by (auto simp only: list_ex_iff)
qed

lemma contains_index: "contains t s \<longleftrightarrow> (\<exists>k \<le> length s. take (length t) (drop k s) = t)"
  by (simp only: contains_def list_ex_upto)

lemma contains_iff: "contains t s \<longleftrightarrow> (\<exists>pre suf. s = pre @ t @ suf)"
proof
  assume "contains t s"
  then obtain k where k: "k \<le> length s" "take (length t) (drop k s) = t"
    by (auto simp: contains_index)
  have "s = take k s @ take (length t) (drop k s) @ drop (length t) (drop k s)"
    by (simp only: append_take_drop_id)
  with k(2) have "s = take k s @ t @ drop (length t) (drop k s)" by simp
  then show "\<exists>pre suf. s = pre @ t @ suf" by blast
next
  assume "\<exists>pre suf. s = pre @ t @ suf"
  then obtain pre suf where s: "s = pre @ t @ suf" by blast
  then have "length pre \<le> length s" "take (length t) (drop (length pre) s) = t" by simp_all
  then show "contains t s" unfolding contains_index by blast
qed


















subsection \<open>Ordering of the listings\<close>







section \<open>Properties of fetching one post\<close>

lemma is_digit_facts:
  assumes "is_digit c"
  shows "\<not> js_whitespace c" and "c \<noteq> CHR ''-''" and "c \<noteq> CHR ''+''"
    and "c \<noteq> CHR ''x''" and "c \<noteq> CHR ''X''" and "in_radix 10 c"
  using assms
  by (auto simp: is_digit_def js_whitespace_def in_radix_def digit_val_def Let_def)

lemma digits_not_hex:
  assumes "list_all is_digit s"
  shows "take 2 s \<noteq> ''0x''" and "take 2 s \<noteq> ''0X''"
proof -
  show "take 2 s \<noteq> ''0x''"
  proof (cases s)
    case Nil
    then show ?thesis by simp
  next
    case (Cons a t)
    show ?thesis
    proof (cases t)
      case Nil
      with Cons show ?thesis by simp
    next
      case (Cons b u)
      with \<open>s = a # t\<close> assms have "is_digit b" by simp
      then have "b \<noteq> CHR ''x''" by (rule is_digit_facts)
      with Cons \<open>s = a # t\<close> show ?thesis by simp
    qed
  qed
  show "take 2 s \<noteq> ''0X''"
  proof (cases s)
    case Nil
    then show ?thesis by simp
  next
    case (Cons a t)
    show ?thesis
    proof (cases t)
      case Nil
      with Cons show ?thesis by simp
    next
      case (Cons b u)
      with \<open>s = a # t\<close> assms have "is_digit b" by simp
      then have "b \<noteq> CHR ''X''" by (rule is_digit_facts)
      with Cons \<open>s = a # t\<close> show ?thesis by simp
    qed
  qed
qed

lemma parseInt_digits:
  assumes "digits_only s"
  shows "parseInt s = Num (int (radix_val 10 s))"
proof -
  from assms obtain c cs where s: "s = c # cs" and all: "list_all is_digit s"
    by (cases s) (auto simp: digits_only_def)
  then have c: "is_digit c" by simp
  have s1: "dropWhile js_whitespace s = s"
    using s is_digit_facts(1) [OF c] by simp
  have sign: "hd s \<noteq> CHR ''-''" "hd s \<noteq> CHR ''+''"
    using s is_digit_facts(2,3) [OF c] by simp_all
  have tw: "takeWhile (in_radix 10) s = s"
    using all by (auto simp: list_all_iff is_digit_facts(6) intro: takeWhile_eq_all_conv [THEN iffD2])
  have ne: "s \<noteq> []" using s by simp
  show ?thesis
    unfolding parseInt_def Let_def s1
    using sign digits_not_hex [OF all] ne by (simp add: tw)
qed

lemma digit_char_digit: "v < 10 \<Longrightarrow> is_digit (digit_char v)"
  by (simp add: is_digit_def digit_char_def)

lemma show_nat_digits: "digits_only (show_nat n)"
proof (induction n rule: show_nat.induct)
  case (1 n)
  show ?case
  proof (cases "n < 10")
    case True
    then show ?thesis
      by (subst show_nat.simps) (simp add: digits_only_def digit_char_digit)
  next
    case False
    with 1 have "digits_only (show_nat (n div 10))" by simp
    moreover have "is_digit (digit_char (n mod 10))" by (simp add: digit_char_digit)
    ultimately show ?thesis
      using False by (subst show_nat.simps) (simp add: digits_only_def)
  qed
qed

lemma radix_val_show_nat: "radix_val 10 (show_nat n) = n"
proof (induction n rule: show_nat.induct)
  case (1 n)
  have digit: "\<And>v. v < 10 \<Longrightarrow> digit_val (digit_char v) = Some v"
    by (simp add: digit_val_def digit_char_def)
  show ?case
  proof (cases "n < 10")
    case True
    then show ?thesis
      by (subst show_nat.simps) (simp add: radix_val_def digit)
  next
    case False
    have "radix_val 10 (show_nat n) =
          radix_val 10 (show_nat (n div 10) @ [digit_char (n mod 10)])"
      using False by (subst show_nat.simps) simp
    also have "\<dots> = radix_val 10 (show_nat (n div 10)) * 10 + n mod 10"
      by (simp add: radix_val_def digit)
    also have "\<dots> = (n div 10) * 10 + n mod 10"
      using 1 [OF False] by simp
    finally show ?thesis by simp
  qed
qed

lemma parseInt_show_nat: "parseInt (show_nat n) = Num (int n)"
  by (simp add: parseInt_digits [OF show_nat_digits] radix_val_show_nat)

lemma first_row_single: "first_row [x] = Some x"
  by (simp add: first_row_def)

lemma author_single:
  assumes "primary_keys d" and "authors_of d p \<noteq> []"
  shows "\<exists>u. authors_of d p = [u]"
proof -
  have "length (authors_of d p) \<le> 1" using assms(1) by (rule authors_of_le1)
  with assms(2) show ?thesis by (cases "authors_of d p") auto
qed

lemma findById_post:
  assumes "primary_keys d" and "p \<in> set (posts d)" and "authors_of d p \<noteq> []"
  shows "\<exists>v. Post_findById d (p_id p) uid = Some v \<and> pv_post v = p"
proof -
  have "distinct (map p_id (posts d))" using assms(1) by (simp add: primary_keys_def)
  from key_filter_single [OF this assms(2)]
  have f: "filter (\<lambda>q. p_id q = p_id p) (posts d) = [p]" .
  from author_single [OF assms(1,3)] obtain u where u: "authors_of d p = [u]" by blast
  show ?thesis
    by (simp add: Post_findById_def f join_details_def u first_row_single mk_detail_def)
qed

lemma set_join_details:
  "v \<in> set (join_details d uid ps) \<Longrightarrow> pv_post v \<in> set ps"
  by (auto simp: join_details_def mk_detail_def)

lemma findBySlug_published:
  assumes "Post_findBySlug d s uid = Some v"
  shows "p_published (pv_post v) \<and> p_slug (pv_post v) = s \<and> pv_post v \<in> set (posts d)"
proof -
  from assms have "v \<in> set (join_details d uid (filter (\<lambda>p. p_slug p = s \<and> p_published p) (posts d)))"
    by (auto simp: Post_findBySlug_def first_row_def split: list.splits)
  from set_join_details [OF this] show ?thesis by simp
qed

lemma findBySlug_unpublished:
  assumes "slugs_unique d" and "p \<in> set (posts d)" and "\<not> p_published p"
  shows "Post_findBySlug d (p_slug p) uid = None"
proof (cases "Post_findBySlug d (p_slug p) uid")
  case None
  then show ?thesis .
next
  case (Some v)
  from findBySlug_published [OF Some]
  have v: "p_published (pv_post v)" "p_slug (pv_post v) = p_slug p" "pv_post v \<in> set (posts d)"
    by simp_all
  have "inj_on p_slug (set (posts d))"
    using assms(1) by (simp add: slugs_unique_def distinct_map)
  with v(2,3) assms(2) have "pv_post v = p" by (auto dest: inj_onD)
  with v(1) assms(3) show ?thesis by simp
qed

text \<open>
  Claim C10, as the code has it. Fetching by numeric id returns a post whatever its
  published flag; fetching by slug returns published posts only. So for an unpublished
  post, the request with an all-digit identifier that denotes its id (its decimal
  rendering, for one) succeeds, and the request with its slug fails with 404 provided the
  slug is not all digits: \<open>getPost\<close> reads an all-digit identifier as an id, never as a
  slug. The tables satisfy their primary keys and the slug's UNIQUE constraint, and the
  post's author row exists.
\<close>

theorem getPost_id_or_slug:
  assumes "primary_keys d" and "slugs_unique d"
    and "p \<in> set (posts d)" and "authors_of d p \<noteq> []"
  shows "(\<exists>v. Post_findById d (p_id p) uid = Some v \<and> pv_post v = p) \<and>
         (\<forall>s v. Post_findBySlug d s uid = Some v \<longrightarrow>
            p_published (pv_post v) \<and> p_slug (pv_post v) = s) \<and>
         (\<not> p_published p \<longrightarrow>
            Post_findBySlug d (p_slug p) uid = None \<and>
            (\<forall>ident. digits_only ident \<and> parseInt ident = Num (p_id p) \<longrightarrow>
               (\<exists>v. getPost d (req\<lparr>params_identifier := ident\<rparr>) =
                      (Inr v, Post_incrementViews d (p_id p)) \<and> pv_post v = p)) \<and>
            (0 \<le> p_id p \<longrightarrow>
               (\<exists>v. getPost d (req\<lparr>params_identifier := show_nat (nat (p_id p))\<rparr>) =
                      (Inr v, Post_incrementViews d (p_id p)) \<and> pv_post v = p)) \<and>
            (\<not> digits_only (p_slug p) \<longrightarrow>
               getPost d (req\<lparr>params_identifier := p_slug p\<rparr>) =
                 (Inl (AppError ''Post not found'' 404), d)))"
proof -
  have a: "\<And>uid. \<exists>v. Post_findById d (p_id p) uid = Some v \<and> pv_post v = p"
    using assms(1,3,4) by (rule findById_post)
  have b: "\<forall>s v. Post_findBySlug d s uid = Some v \<longrightarrow>
            p_published (pv_post v) \<and> p_slug (pv_post v) = s"
    using findBySlug_published by blast
  have c: "\<not> p_published p \<longrightarrow>
            Post_findBySlug d (p_slug p) uid = None \<and>
            (\<forall>ident. digits_only ident \<and> parseInt ident = Num (p_id p) \<longrightarrow>
               (\<exists>v. getPost d (req\<lparr>params_identifier := ident\<rparr>) =
                      (Inr v, Post_incrementViews d (p_id p)) \<and> pv_post v = p)) \<and>
            (0 \<le> p_id p \<longrightarrow>
               (\<exists>v. getPost d (req\<lparr>params_identifier := show_nat (nat (p_id p))\<rparr>) =
                      (Inr v, Post_incrementViews d (p_id p)) \<and> pv_post v = p)) \<and>
            (\<not> digits_only (p_slug p) \<longrightarrow>
               getPost d (req\<lparr>params_identifier := p_slug p\<rparr>) =
                 (Inl (AppError ''Post not found'' 404), d))"
  proof
    assume np: "\<not> p_published p"
    have none: "\<And>uid. Post_findBySlug d (p_slug p) uid = None"
      using assms(2,3) np by (rule findBySlug_unpublished)
    have byid: "\<forall>ident. digits_only ident \<and> parseInt ident = Num (p_id p) \<longrightarrow>
               (\<exists>v. getPost d (req\<lparr>params_identifier := ident\<rparr>) =
                      (Inr v, Post_incrementViews d (p_id p)) \<and> pv_post v = p)"
    proof (intro allI impI)
      fix ident
      assume i: "digits_only ident \<and> parseInt ident = Num (p_id p)"
      from a [of "map_option au_id (user req)"] obtain v where
        v: "Post_findById d (p_id p) (map_option au_id (user req)) = Some v" "pv_post v = p"
        by blast
      with i have "getPost d (req\<lparr>params_identifier := ident\<rparr>) =
                      (Inr v, Post_incrementViews d (p_id p))"
        by (simp add: getPost_def Let_def)
      with v(2) show "\<exists>v. getPost d (req\<lparr>params_identifier := ident\<rparr>) =
                      (Inr v, Post_incrementViews d (p_id p)) \<and> pv_post v = p"
        by blast
    qed
    have bynat: "0 \<le> p_id p \<longrightarrow>
               (\<exists>v. getPost d (req\<lparr>params_identifier := show_nat (nat (p_id p))\<rparr>) =
                      (Inr v, Post_incrementViews d (p_id p)) \<and> pv_post v = p)"
    proof
      assume "0 \<le> p_id p"
      then have "digits_only (show_nat (nat (p_id p))) \<and>
                 parseInt (show_nat (nat (p_id p))) = Num (p_id p)"
        by (simp add: show_nat_digits parseInt_show_nat)
      with byid show "\<exists>v. getPost d (req\<lparr>params_identifier := show_nat (nat (p_id p))\<rparr>) =
                      (Inr v, Post_incrementViews d (p_id p)) \<and> pv_post v = p"
        by blast
    qed
    have byslug: "\<not> digits_only (p_slug p) \<longrightarrow>
               getPost d (req\<lparr>params_identifier := p_slug p\<rparr>) =
                 (Inl (AppError ''Post not found'' 404), d)"
      using none by (simp add: getPost_def Let_def)
    from none [of uid] byid bynat byslug
    show "Post_findBySlug d (p_slug p) uid = None \<and>
            (\<forall>ident. digits_only ident \<and> parseInt ident = Num (p_id p) \<longrightarrow>
               (\<exists>v. getPost d (req\<lparr>params_identifier := ident\<rparr>) =
                      (Inr v, Post_incrementViews d (p_id p)) \<and> pv_post v = p)) \<and>
            (0 \<le> p_id p \<longrightarrow>
               (\<exists>v. getPost d (req\<lparr>params_identifier := show_nat (nat (p_id p))\<rparr>) =
                      (Inr v, Post_incrementViews d (p_id p)) \<and> pv_post v = p)) \<and>
            (\<not> digits_only (p_slug p) \<longrightarrow>
               getPost d (req\<lparr>params_identifier := p_slug p\<rparr>) =
                 (Inl (AppError ''Post not found'' 404), d))"
      by (intro conjI)
  qed
  from a [of uid] b c show ?thesis by (intro conjI)
qed

theorem getPost_id_or_slug_witness:
  "\<not> p_published (posts example_db ! 1) \<and>
   p_id (posts example_db ! 1) = 2 \<and>
   p_slug (posts example_db ! 1) = ''draft-notes'' \<and>
   (\<exists>v. getPost example_db (blank_request\<lparr>params_identifier := ''2''\<rparr>) =
          (Inr v, Post_incrementViews example_db 2) \<and> pv_post v = posts example_db ! 1) \<and>
   getPost example_db (blank_request\<lparr>params_identifier := ''draft-notes''\<rparr>) =
     (Inl (AppError ''Post not found'' 404), example_db)"
proof -
  let ?p = "posts example_db ! 1"
  have su: "slugs_unique example_db" by code_simp
  have pin: "?p \<in> set (posts example_db)" by (simp add: example_db_def)
  have au: "authors_of example_db ?p \<noteq> []" by code_simp
  have np: "\<not> p_published ?p" by code_simp
  have id2: "p_id ?p = 2" by code_simp
  have sl: "p_slug ?p = ''draft-notes''" by code_simp
  have dg: "digits_only ''2'' \<and> parseInt ''2'' = Num (p_id ?p)" by code_simp
  have nd: "\<not> digits_only (p_slug ?p)" by code_simp
  note T = getPost_id_or_slug [OF example_db_keys su pin au, of None blank_request,
             THEN conjunct2, THEN conjunct2, rule_format, OF np]
  from T [THEN conjunct2, THEN conjunct1, rule_format, OF dg]
  have 1: "\<exists>v. getPost example_db (blank_request\<lparr>params_identifier := ''2''\<rparr>) =
          (Inr v, Post_incrementViews example_db 2) \<and> pv_post v = ?p"
    by (simp only: id2)
  from T [THEN conjunct2, THEN conjunct2, THEN conjunct2, rule_format, OF nd]
  have 2: "getPost example_db (blank_request\<lparr>params_identifier := ''draft-notes''\<rparr>) =
     (Inl (AppError ''Post not found'' 404), example_db)"
    by (simp only: sl)
  from np id2 sl 1 2 show ?thesis by (intro conjI)
qed

text \<open>
  As the claim states it, the request with the slug of an unpublished post fails with 404.
  The unpublished post of \<open>small_db\<close> has the id 7 and the slug \<open>007\<close> (its title is
  \<open>007\<close>); the request with that slug is read as a request for id 7 and succeeds.
\<close>

theorem getPost_numeric_slug_counterexample:
  "\<not> p_published (posts small_db ! 0) \<and>
   p_slug (posts small_db ! 0) = ''007'' \<and>
   generateSlug (p_title (posts small_db ! 0)) = ''007'' \<and>
   fst (getPost small_db (blank_request\<lparr>params_identifier := ''007''\<rparr>)) =
     Inr \<lparr>pv_post = posts small_db ! 0, author_name = ''Alice'', author_avatar = None,
          likes_count = 0, comments_count = 0, author_bio = None, user_liked = False\<rparr>"
  by code_simp

section \<open>Properties of the unique slug\<close>

lemma unique_slug_loop_free: "\<not> slug_taken d e (unique_slug_loop d e b s c)"
proof (induction d e b s c rule: unique_slug_loop.induct)
  case (1 d e b s c)
  show ?case
  proof (cases "slug_taken d e s")
    case True
    with 1 show ?thesis by (subst unique_slug_loop.simps) simp
  next
    case False
    then show ?thesis by (subst unique_slug_loop.simps) simp
  qed
qed

lemma unique_slug_loop_base: "\<not> slug_taken d e s \<Longrightarrow> unique_slug_loop d e b s c = s"
  by (subst unique_slug_loop.simps) simp

lemma unique_slug_loop_first:
  "slug_taken d e s \<Longrightarrow>
   \<exists>k \<ge> c. unique_slug_loop d e b s c = candidate b k \<and>
          \<not> slug_taken d e (candidate b k) \<and>
          (\<forall>j. c \<le> j \<and> j < k \<longrightarrow> slug_taken d e (candidate b j))"
proof (induction d e b s c rule: unique_slug_loop.induct)
  case (1 d e b s c)
  have step: "unique_slug_loop d e b s c = unique_slug_loop d e b (candidate b c) (c + 1)"
    using "1.prems" by (subst unique_slug_loop.simps) simp
  show ?case
  proof (cases "slug_taken d e (candidate b c)")
    case False
    then have "unique_slug_loop d e b s c = candidate b c"
      using step by (simp add: unique_slug_loop_base)
    with False show ?thesis by (intro exI [of _ c]) auto
  next
    case True
    from "1.IH" [OF _ True] "1.prems" obtain k where
      k: "c + 1 \<le> k" "unique_slug_loop d e b (candidate b c) (c + 1) = candidate b k"
         "\<not> slug_taken d e (candidate b k)"
         "\<forall>j. c + 1 \<le> j \<and> j < k \<longrightarrow> slug_taken d e (candidate b j)"
      by auto
    have "\<forall>j. c \<le> j \<and> j < k \<longrightarrow> slug_taken d e (candidate b j)"
    proof (intro allI impI)
      fix j assume j: "c \<le> j \<and> j < k"
      show "slug_taken d e (candidate b j)"
      proof (cases "j = c")
        case True
        with \<open>slug_taken d e (candidate b c)\<close> show ?thesis by simp
      next
        case False
        with j have "c + 1 \<le> j \<and> j < k" by simp
        with k(4) show ?thesis by blast
      qed
    qed
    with k(1,2,3) step show ?thesis by (intro exI [of _ k]) auto
  qed
qed

lemma generateUniqueSlug_probes:
  "\<not> slug_taken d e (generateUniqueSlug d title e) \<and>
   (\<not> slug_taken d e (generateSlug title) \<longrightarrow>
      generateUniqueSlug d title e = generateSlug title) \<and>
   (slug_taken d e (generateSlug title) \<longrightarrow>
      (\<exists>k \<ge> 1. generateUniqueSlug d title e = candidate (generateSlug title) k \<and>
         (\<forall>j. 1 \<le> j \<and> j < k \<longrightarrow> slug_taken d e (candidate (generateSlug title) j))))"
proof -
  have a: "\<not> slug_taken d e (generateUniqueSlug d title e)"
    by (simp add: generateUniqueSlug_def Let_def unique_slug_loop_free)
  have b: "\<not> slug_taken d e (generateSlug title) \<longrightarrow>
      generateUniqueSlug d title e = generateSlug title"
    by (simp add: generateUniqueSlug_def Let_def unique_slug_loop_base)
  have c: "slug_taken d e (generateSlug title) \<longrightarrow>
      (\<exists>k \<ge> 1. generateUniqueSlug d title e = candidate (generateSlug title) k \<and>
         (\<forall>j. 1 \<le> j \<and> j < k \<longrightarrow> slug_taken d e (candidate (generateSlug title) j)))"
  proof
    assume "slug_taken d e (generateSlug title)"
    from unique_slug_loop_first [OF this, of 1 "generateSlug title"]
    show "\<exists>k \<ge> 1. generateUniqueSlug d title e = candidate (generateSlug title) k \<and>
         (\<forall>j. 1 \<le> j \<and> j < k \<longrightarrow> slug_taken d e (candidate (generateSlug title) j))"
      by (auto simp: generateUniqueSlug_def Let_def)
  qed
  from a b c show ?thesis by (intro conjI)
qed

text \<open>
  Claim C6. \<open>generateUniqueSlug\<close> returns the base slug when no stored record (other than
  the one excluded) carries it, and otherwise the first of base-1, base-2, ... that none
  carries; so successive creations with colliding titles store base, base-1, base-2, ...,
  all distinct. The function does probe in that order (\<open>generateUniqueSlug_probes\<close>), but
  \<open>createPost\<close> drops its result: \<open>Post.create\<close> stores \<open>generateSlug(title)\<close> again. In
  \<open>small_db\<close>, which holds a post with the slug \<open>my-title\<close>, the unique slug of
  \<open>My Title\<close> is \<open>my-title-1\<close>, yet the creation tries to store \<open>my-title\<close>, the store
  rejects it (23505, answered with 409), and no post is added.
\<close>

theorem createPost_drops_unique_slug:
  "generateUniqueSlug small_db ''My Title'' None = ''my-title-1'' \<and>
   fst (createPost small_db 300 (create_request ''My Title'')) =
     Inl (DbError ''23505'' ''duplicate key value violates unique constraint'') \<and>
   posts (snd (createPost small_db 300 (create_request ''My Title''))) = posts small_db \<and>
   errorHandler (DbError ''23505'' ''duplicate key value violates unique constraint'') =
     (409, ''Resource already exists'')"
  by code_simp

end
